theory Spec2Isabelle
  imports Complex_Main "HOL-Library.Sublist" "HOL-Library.Multiset"
begin

section \<open>QuackIR on PostgreSQL: index type resolution, sparse search and rank fusion\<close>

text \<open>
  The development embeds \<^verbatim>\<open>quackir/search/_postgres.py\<close> (class
  \<^verbatim>\<open>PostgresSearcher\<close>) and the resolver of \<^verbatim>\<open>quackir/index/_postgres.py\<close>
  (class \<^verbatim>\<open>PostgresIndexer\<close>). The Python side (table resolution, query normalisation,
  construction of the statement text and of its bound parameters) is embedded function by
  function. The statements themselves are SQL; their meaning is embedded clause by clause
  (window function, \<^verbatim>\<open>LIMIT\<close>, \<^verbatim>\<open>FULL OUTER JOIN\<close>, \<^verbatim>\<open>COALESCE\<close>,
  \<^verbatim>\<open>ORDER BY\<close>) over the rows of the two tables.
\<close>

subsection \<open>Errors and enumerations\<close>

text \<open>
  Every exception the embedded code can raise is a value: \<open>ValueError\<close> with its message
  (raised by the resolvers), \<open>IndexError\<close> (a read of \<^verbatim>\<open>table_names[i]\<close> out of range)
  and \<open>DatabaseError\<close> with the server's message (raised by \<^verbatim>\<open>cur.execute\<close>).
\<close>

datatype error = ValueError string | IndexError | DatabaseError string

text \<open>
  \<^verbatim>\<open>SearchType\<close> and \<^verbatim>\<open>IndexType\<close> are two enumerations of \<^verbatim>\<open>quackir._base\<close>,
  each with the members \<^verbatim>\<open>SPARSE\<close> and \<^verbatim>\<open>DENSE\<close>; the members of the second carry a
  prefix here, since one theory cannot declare a constructor name twice.
\<close>

datatype SearchType = SPARSE | DENSE

datatype IndexType = Index_SPARSE | Index_DENSE

subsection \<open>The index type resolver\<close>

text \<open>
  The resolvers read \<^verbatim>\<open>information_schema.columns\<close>: the catalog maps a table name to
  the column names the query \<^verbatim>\<open>SELECT column_name ... WHERE table_name = %s\<close> returns
  (no row for a table that does not exist).
\<close>

type_synonym catalog = "string \<Rightarrow> string list"

definition search_type_message :: "string \<Rightarrow> string" where
  "search_type_message table_name =
     ''Unknown search type for table '' @ table_name @
     ''. Ensure it has either an 'embedding' column or a 'contents' column.''"

definition index_type_message :: "string \<Rightarrow> string" where
  "index_type_message table_name =
     ''Unknown index type for table '' @ table_name @
     ''. Ensure it has either an 'embedding' column or a 'contents' column.''"

definition get_search_type :: "catalog \<Rightarrow> string \<Rightarrow> error + SearchType" where
  "get_search_type cat table_name =
     (let columns = cat table_name in
      if ''contents'' \<in> set columns then Inr SPARSE
      else if ''embedding'' \<in> set columns then Inr DENSE
      else Inl (ValueError (search_type_message table_name)))"

definition get_index_type :: "catalog \<Rightarrow> string \<Rightarrow> error + IndexType" where
  "get_index_type cat table_name =
     (let columns = cat table_name in
      if ''contents'' \<in> set columns then Inr Index_SPARSE
      else if ''embedding'' \<in> set columns then Inr Index_DENSE
      else Inl (ValueError (index_type_message table_name)))"

text \<open>
  A catalog with two tables of each kind, one with both marker columns and one with
  neither.
\<close>

definition demo_catalog :: catalog where
  "demo_catalog t =
     (if t = ''sparse'' \<or> t = ''sparse2'' then [''id'', ''contents'']
      else if t = ''dense'' \<or> t = ''dense2'' then [''id'', ''embedding'']
      else if t = ''both'' then [''id'', ''embedding'', ''contents'']
      else if t = ''other'' then [''id'', ''title'']
      else [])"

subsection \<open>Query normalisation: \<^verbatim>\<open>clean_tsquery\<close>\<close>

text \<open>
  A Python \<^verbatim>\<open>str\<close> is a sequence of characters; \<^verbatim>\<open>\w\<close> and \<^verbatim>\<open>\s\<close> of
  \<^verbatim>\<open>re\<close>, and \<^verbatim>\<open>str.strip\<close> and \<^verbatim>\<open>str.split\<close>, classify them by the Unicode
  tables of the interpreter (\<^verbatim>\<open>\w\<close>: alphanumeric or underscore; \<^verbatim>\<open>\s\<close> and the
  string methods: \<^verbatim>\<open>str.isspace\<close>). Below 128 the classes are written out; the tables for
  the characters from 128 on are not part of the repository and are the parameter
  \<open>uni\<close>.
\<close>

datatype cclass = Word | Space | Other

definition char_class :: "(char \<Rightarrow> cclass) \<Rightarrow> char \<Rightarrow> cclass" where
  "char_class uni c =
     (let n = (of_char c :: nat) in
      if 128 \<le> n then uni c
      else if (9 \<le> n \<and> n \<le> 13) \<or> (28 \<le> n \<and> n \<le> 32) then Space
      else if (48 \<le> n \<and> n \<le> 57) \<or> (65 \<le> n \<and> n \<le> 90) \<or> n = 95 \<or> (97 \<le> n \<and> n \<le> 122)
      then Word
      else Other)"

definition is_space :: "(char \<Rightarrow> cclass) \<Rightarrow> char \<Rightarrow> bool" where
  "is_space uni c = (char_class uni c = Space)"

definition is_word :: "(char \<Rightarrow> cclass) \<Rightarrow> char \<Rightarrow> bool" where
  "is_word uni c = (char_class uni c = Word)"

text \<open>\<^verbatim>\<open>re.sub(r'[^\w\s]', ' ', s)\<close>: every character outside both classes becomes a space.\<close>

definition sub_non_word_space :: "(char \<Rightarrow> cclass) \<Rightarrow> string \<Rightarrow> string" where
  "sub_non_word_space uni s = map (\<lambda>c. if is_word uni c \<or> is_space uni c then c else CHR '' '') s"

text \<open>\<^verbatim>\<open>re.sub(r'\s+', ' ', s)\<close>: every maximal run of whitespace becomes one space.\<close>

function sub_space_runs :: "(char \<Rightarrow> cclass) \<Rightarrow> string \<Rightarrow> string" where
  "sub_space_runs uni [] = []"
| "sub_space_runs uni (c # cs) =
     (if is_space uni c then CHR '' '' # sub_space_runs uni (dropWhile (is_space uni) cs)
      else c # sub_space_runs uni cs)"
  by pat_completeness auto
termination
  by (relation "measure (\<lambda>(uni, s). length s)") (auto simp: le_imp_less_Suc length_dropWhile_le)

text \<open>\<^verbatim>\<open>s.strip()\<close>: whitespace is removed at both ends.\<close>

definition str_strip :: "(char \<Rightarrow> cclass) \<Rightarrow> string \<Rightarrow> string" where
  "str_strip uni s = rev (dropWhile (is_space uni) (rev (dropWhile (is_space uni) s)))"

text \<open>
  \<^verbatim>\<open>s.split()\<close>: the string is cut at runs of whitespace and no empty string is returned.
  \<open>split_from uni w s\<close> scans \<open>s\<close> with the word \<open>w\<close> read so far.
\<close>

fun split_from :: "(char \<Rightarrow> cclass) \<Rightarrow> string \<Rightarrow> string \<Rightarrow> string list" where
  "split_from uni w [] = (if w = [] then [] else [w])"
| "split_from uni w (c # cs) =
     (if is_space uni c then (if w = [] then split_from uni [] cs else w # split_from uni [] cs)
      else split_from uni (w @ [c]) cs)"

definition str_split :: "(char \<Rightarrow> cclass) \<Rightarrow> string \<Rightarrow> string list" where
  "str_split uni s = split_from uni [] s"

text \<open>\<^verbatim>\<open>sep.join(xs)\<close>.\<close>

fun str_join :: "string \<Rightarrow> string list \<Rightarrow> string" where
  "str_join sep [] = []"
| "str_join sep [x] = x"
| "str_join sep (x # y # ys) = x @ sep @ str_join sep (y # ys)"

definition clean_tsquery :: "(char \<Rightarrow> cclass) \<Rightarrow> string \<Rightarrow> string" where
  "clean_tsquery uni query_string =
     (let cleaned_query = sub_non_word_space uni query_string;
          cleaned_query = str_strip uni (sub_space_runs uni cleaned_query);
          ts_query = str_join '' | '' (str_split uni cleaned_query)
      in ts_query)"

text \<open>
  The terms of a query text, read off the text directly: its maximal runs of word
  characters. \<open>terms_from uni w s\<close> scans \<open>s\<close> with the term \<open>w\<close> read so far.
\<close>

fun terms_from :: "(char \<Rightarrow> cclass) \<Rightarrow> string \<Rightarrow> string \<Rightarrow> string list" where
  "terms_from uni w [] = (if w = [] then [] else [w])"
| "terms_from uni w (c # cs) =
     (if is_word uni c then terms_from uni (w @ [c]) cs
      else if w = [] then terms_from uni [] cs
      else w # terms_from uni [] cs)"

definition query_terms :: "(char \<Rightarrow> cclass) \<Rightarrow> string \<Rightarrow> string list" where
  "query_terms uni s = terms_from uni [] s"

text \<open>The classification that knows no word character and no whitespace from 128 on.\<close>

definition ascii_classes :: "char \<Rightarrow> cclass" where
  "ascii_classes c = Other"

subsection \<open>The statements passed to \<^verbatim>\<open>cur.execute\<close>\<close>

text \<open>
  A call \<^verbatim>\<open>cur.execute(query, args)\<close> is the value of its two arguments: the statement
  text and the bound arguments, a tuple for \<^verbatim>\<open>%s\<close> placeholders or a dictionary for
  \<^verbatim>\<open>%(name)s\<close> placeholders. Texts and vectors are strings, \<^verbatim>\<open>top_n\<close> is an integer;
  \<^verbatim>\<open>k\<close> and the weights are numbers, taken as exact rationals. In the statement texts the
  layout of the f-strings (line breaks and indentation) is written as single spaces and
  dropped at both ends; everything else is character by character.
\<close>

datatype param = PStr string | PInt int | PNum rat

datatype arguments = Tuple "param list" | Dict "(string \<times> param) list"

record statement =
  sql :: string
  args :: arguments

record PostgresSearcher =
  use_pg_textsearch :: bool
  conn :: catalog

text \<open>
  \<^verbatim>\<open>BM25_INDEX_TEMPLATE\<close> of \<^verbatim>\<open>quackir.utils.constants\<close> is not part of the sources at
  hand: \<open>bm25_index\<close> stands for \<^verbatim>\<open>BM25_INDEX_TEMPLATE.format(table_name=...)\<close>.
\<close>

definition fts_search ::
  "(char \<Rightarrow> cclass) \<Rightarrow> (string \<Rightarrow> string) \<Rightarrow> PostgresSearcher \<Rightarrow> string \<Rightarrow> int \<Rightarrow> string \<Rightarrow> statement" where
  "fts_search uni bm25_index self query_string top_n table_name =
     (if use_pg_textsearch self then
        (let idx_name = bm25_index table_name in
         \<lparr>sql = ''SELECT id, contents <@> to_bm25query(%(q)s, %(idx)s) AS score FROM \"'' @
                 table_name @ ''\" ORDER BY score LIMIT %(n)s'',
          args = Dict [(''q'', PStr query_string), (''idx'', PStr idx_name), (''n'', PInt top_n)]\<rparr>)
      else
        (let ts_query = clean_tsquery uni query_string in
         \<lparr>sql = ''SELECT id, ts_rank(to_tsvector('simple', contents), to_tsquery('simple', %s)) AS score FROM '' @
                 table_name @
                 '' WHERE to_tsvector('simple', contents) @@ to_tsquery('simple', %s) ORDER BY score DESC LIMIT %s'',
          args = Tuple [PStr ts_query, PStr ts_query, PInt top_n]\<rparr>))"


text \<open>Sequencing of computations that may raise.\<close>

definition and_then :: "error + 'a \<Rightarrow> ('a \<Rightarrow> error + 'b) \<Rightarrow> error + 'b" where
  "and_then r f = (case r of Inl e \<Rightarrow> Inl e | Inr v \<Rightarrow> f v)"

text \<open>\<^verbatim>\<open>xs[i]\<close> for a literal index \<open>i \<ge> 0\<close>: \<^verbatim>\<open>IndexError\<close> out of range.\<close>

definition subscript :: "'a list \<Rightarrow> nat \<Rightarrow> error + 'a" where
  "subscript xs i = (if i < length xs then Inr (xs ! i) else Inl IndexError)"

text \<open>
  The first two statements of \<^verbatim>\<open>rrf_search\<close>. In a conditional expression the condition
  runs first, then the chosen branch only.
\<close>

definition resolve_tables :: "catalog \<Rightarrow> string list \<Rightarrow> error + (string \<times> string)" where
  "resolve_tables cat table_names =
     and_then (subscript table_names 0) (\<lambda>t0.
     and_then (get_search_type cat t0) (\<lambda>type0.
     and_then (if type0 = SPARSE then subscript table_names 0 else subscript table_names 1)
       (\<lambda>sparse_table.
     and_then (subscript table_names 1) (\<lambda>t1.
     and_then (get_search_type cat t1) (\<lambda>type1.
     and_then (if type1 = DENSE then subscript table_names 1 else subscript table_names 0)
       (\<lambda>dense_table.
     Inr (sparse_table, dense_table)))))))"

text \<open>The statement \<^verbatim>\<open>rrf_search\<close> passes to \<^verbatim>\<open>cur.execute\<close> once the two tables are chosen.\<close>

definition fusion_statement ::
  "(char \<Rightarrow> cclass) \<Rightarrow> (string \<Rightarrow> string) \<Rightarrow> bool \<Rightarrow> string \<Rightarrow> string \<Rightarrow>
   string \<Rightarrow> string \<Rightarrow> int \<Rightarrow> rat \<Rightarrow> rat \<Rightarrow> rat \<Rightarrow> statement" where
  "fusion_statement uni bm25_index pg_textsearch sparse_table dense_table
     query_string query_embedding top_n k weight_keyword weight_semantic =
     (if pg_textsearch then
        (let idx_name = bm25_index sparse_table in
         \<lparr>sql = ''WITH vector_search AS ( SELECT id, ROW_NUMBER() OVER (ORDER BY embedding <=> %(vector)s::vector) AS rank FROM \"'' @
                 dense_table @
                 ''\" ORDER BY embedding <=> %(vector)s::vector LIMIT %(n)s ), keyword_search AS ( SELECT id, ROW_NUMBER() OVER ( ORDER BY contents <@> to_bm25query(%(q)s, %(idx)s) ) AS rank FROM \"'' @
                 sparse_table @
                 ''\" ORDER BY contents <@> to_bm25query(%(q)s, %(idx)s) LIMIT %(n)s ) SELECT COALESCE(v.id, k.id) AS id, %(w_sem)s * COALESCE(1.0 / (%(k)s + v.rank), 0.0) + %(w_key)s * COALESCE(1.0 / (%(k)s + k.rank), 0.0) AS score FROM vector_search v FULL OUTER JOIN keyword_search k ON v.id = k.id ORDER BY score DESC LIMIT %(n)s'',
          args = Dict [(''q'', PStr query_string), (''vector'', PStr query_embedding),
                       (''n'', PInt top_n), (''k'', PNum k), (''idx'', PStr idx_name),
                       (''w_sem'', PNum weight_semantic), (''w_key'', PNum weight_keyword)]\<rparr>)
      else
        (let ts_query = clean_tsquery uni query_string in
         \<lparr>sql = ''WITH semantic_search AS ( SELECT id, RANK () OVER (ORDER BY embedding <=> %(vector)s::vector) AS rank FROM '' @
                 dense_table @
                 '' LIMIT %(n)s ), keyword_search AS ( SELECT id, RANK () OVER (ORDER BY ts_rank(to_tsvector('simple', contents), query) DESC) as rank FROM '' @
                 sparse_table @
                 '', to_tsquery('simple', %(query)s) query WHERE to_tsvector('simple', contents) @@ query LIMIT %(n)s ) SELECT COALESCE(semantic_search.id, keyword_search.id) AS id, %(w_sem)s * COALESCE(1.0 / (%(k)s + semantic_search.rank), 0.0) + %(w_key)s * COALESCE(1.0 / (%(k)s + keyword_search.rank), 0.0) AS score FROM semantic_search FULL OUTER JOIN keyword_search ON semantic_search.id = keyword_search.id ORDER BY score DESC LIMIT %(n)s'',
          args = Dict [(''query'', PStr ts_query), (''vector'', PStr query_embedding),
                       (''n'', PInt top_n), (''k'', PNum k),
                       (''w_sem'', PNum weight_semantic), (''w_key'', PNum weight_keyword)]\<rparr>))"

text \<open>
  \<^verbatim>\<open>rrf_search\<close> up to its call of \<^verbatim>\<open>cur.execute\<close>: an error of the table
  resolution, or the statement handed to the server. The value does not say what the
  server does with the statement (the rows it returns are \<open>rrf_query\<close> below; an error
  it raises, such as a column the table lacks, is not embedded).
\<close>

definition rrf_search ::
  "(char \<Rightarrow> cclass) \<Rightarrow> (string \<Rightarrow> string) \<Rightarrow> PostgresSearcher \<Rightarrow>
   string \<Rightarrow> string \<Rightarrow> int \<Rightarrow> rat \<Rightarrow> string list \<Rightarrow> rat \<Rightarrow> rat \<Rightarrow> error + statement" where
  "rrf_search uni bm25_index self query_string query_embedding top_n k table_names
     weight_keyword weight_semantic =
     and_then (resolve_tables (conn self) table_names) (\<lambda>(sparse_table, dense_table).
       Inr (fusion_statement uni bm25_index (use_pg_textsearch self) sparse_table dense_table
              query_string query_embedding top_n k weight_keyword weight_semantic))"

text \<open>An index name template and two searchers, one per dialect, for concrete runs.\<close>

definition demo_bm25_index :: "string \<Rightarrow> string" where
  "demo_bm25_index table_name = table_name @ ''_bm25_idx''"

definition demo_searcher :: PostgresSearcher where
  "demo_searcher = \<lparr>use_pg_textsearch = False, conn = demo_catalog\<rparr>"

definition demo_textsearch_searcher :: PostgresSearcher where
  "demo_textsearch_searcher = \<lparr>use_pg_textsearch = True, conn = demo_catalog\<rparr>"


subsection \<open>The fusion statement on the tables\<close>

text \<open>
  What the statement of \<^verbatim>\<open>rrf_search\<close> computes, clause by clause. A row of a table
  is given by its \<^verbatim>\<open>id\<close> and by the values the server computes on it for the bound
  arguments: \<^verbatim>\<open>embedding <=> vector\<close> on a dense row; on a sparse row whether
  \<^verbatim>\<open>to_tsvector('simple', contents) @@ query\<close> holds, the value of
  \<^verbatim>\<open>ts_rank(to_tsvector('simple', contents), query)\<close> and the value of
  \<^verbatim>\<open>contents <@> to_bm25query(q, idx)\<close>. These values and the scores computed from
  \<^verbatim>\<open>k\<close> and the weights are taken as exact rationals; \<^verbatim>\<open>id\<close> is the primary key
  and never null. Where SQL leaves the order of rows open (rows with equal sort keys, the
  rows of a join), the rows keep the order they had: sorting is stable, and a window
  function hands its rows on in the order of its \<^verbatim>\<open>ORDER BY\<close>.
\<close>

record dense_row =
  dense_id :: string
  distance :: rat

record sparse_row =
  sparse_id :: string
  matches :: bool
  ts_rank :: rat
  bm25_distance :: rat

text \<open>A row of a ranking: the \<^verbatim>\<open>id\<close> and its \<^verbatim>\<open>rank\<close>.\<close>

type_synonym ranked = "string \<times> nat"

text \<open>\<^verbatim>\<open>LIMIT n\<close>: the server rejects a negative count.\<close>

definition limit :: "int \<Rightarrow> 'a list \<Rightarrow> error + 'a list" where
  "limit n rows =
     (if n < 0 then Inl (DatabaseError ''LIMIT must not be negative'') else Inr (take (nat n) rows))"

text \<open>\<^verbatim>\<open>ROW_NUMBER() OVER (ORDER BY key)\<close>: the rows in order, numbered from 1.\<close>

definition row_number_over :: "('r \<Rightarrow> rat) \<Rightarrow> 'r list \<Rightarrow> ('r \<times> nat) list" where
  "row_number_over key rows =
     (let ordered = sort_key key rows in zip ordered [1..<Suc (length ordered)])"

text \<open>
  \<^verbatim>\<open>RANK() OVER (ORDER BY key)\<close>: the rows in order, each with one more than the number
  of rows that sort strictly before it.
\<close>

definition rank_over :: "('r \<Rightarrow> rat) \<Rightarrow> 'r list \<Rightarrow> ('r \<times> nat) list" where
  "rank_over key rows =
     map (\<lambda>r. (r, Suc (length (filter (\<lambda>x. key x < key r) rows)))) (sort_key key rows)"

text \<open>
  The two rankings with \<^verbatim>\<open>use_pg_textsearch\<close>: \<^verbatim>\<open>vector_search\<close> and
  \<^verbatim>\<open>keyword_search\<close> (here \<open>keyword_search_bm25\<close>), each
  \<^verbatim>\<open>SELECT id, ROW_NUMBER() OVER (ORDER BY e) AS rank FROM t ORDER BY e LIMIT n\<close>.
\<close>

definition vector_search :: "int \<Rightarrow> dense_row list \<Rightarrow> error + ranked list" where
  "vector_search n dense_table =
     and_then (limit n (sort_key (\<lambda>(r, rank). distance r) (row_number_over distance dense_table)))
       (\<lambda>rows. Inr (map (\<lambda>(r, rank). (dense_id r, rank)) rows))"

definition keyword_search_bm25 :: "int \<Rightarrow> sparse_row list \<Rightarrow> error + ranked list" where
  "keyword_search_bm25 n sparse_table =
     and_then (limit n (sort_key (\<lambda>(r, rank). bm25_distance r)
                          (row_number_over bm25_distance sparse_table)))
       (\<lambda>rows. Inr (map (\<lambda>(r, rank). (sparse_id r, rank)) rows))"

text \<open>
  The two rankings without \<^verbatim>\<open>use_pg_textsearch\<close>: \<^verbatim>\<open>semantic_search\<close>,
  \<^verbatim>\<open>SELECT id, RANK () OVER (ORDER BY e) AS rank FROM t LIMIT n\<close>, and
  \<^verbatim>\<open>keyword_search\<close>, the same over the rows that match the query, by descending
  \<^verbatim>\<open>ts_rank\<close>. Neither has an \<^verbatim>\<open>ORDER BY\<close> before its \<^verbatim>\<open>LIMIT\<close>.
\<close>

definition semantic_search :: "int \<Rightarrow> dense_row list \<Rightarrow> error + ranked list" where
  "semantic_search n dense_table =
     and_then (limit n (rank_over distance dense_table))
       (\<lambda>rows. Inr (map (\<lambda>(r, rank). (dense_id r, rank)) rows))"

definition keyword_search :: "int \<Rightarrow> sparse_row list \<Rightarrow> error + ranked list" where
  "keyword_search n sparse_table =
     and_then (limit n (rank_over (\<lambda>r. - ts_rank r) (filter matches sparse_table)))
       (\<lambda>rows. Inr (map (\<lambda>(r, rank). (sparse_id r, rank)) rows))"

text \<open>
  \<^verbatim>\<open>a FULL OUTER JOIN b ON a.id = b.id\<close>: every pair of rows with equal ids, every left
  row without partner, every right row without partner.
\<close>

datatype joined = Both ranked ranked | LeftOnly ranked | RightOnly ranked

definition full_outer_join :: "ranked list \<Rightarrow> ranked list \<Rightarrow> joined list" where
  "full_outer_join left right =
     concat (map (\<lambda>l. let partners = filter (\<lambda>r. fst l = fst r) right in
                        if partners = [] then [LeftOnly l] else map (Both l) partners) left) @
     map RightOnly (filter (\<lambda>r. fst r \<notin> set (map fst left)) right)"

text \<open>\<^verbatim>\<open>COALESCE(a.id, b.id)\<close>, and the two \<^verbatim>\<open>rank\<close> columns, null on the missing side.\<close>

fun coalesce_id :: "joined \<Rightarrow> string" where
  "coalesce_id (Both l r) = fst l"
| "coalesce_id (LeftOnly l) = fst l"
| "coalesce_id (RightOnly r) = fst r"

fun left_rank :: "joined \<Rightarrow> nat option" where
  "left_rank (Both l r) = Some (snd l)"
| "left_rank (LeftOnly l) = Some (snd l)"
| "left_rank (RightOnly r) = None"

fun right_rank :: "joined \<Rightarrow> nat option" where
  "right_rank (Both l r) = Some (snd r)"
| "right_rank (LeftOnly l) = None"
| "right_rank (RightOnly r) = Some (snd r)"

text \<open>
  \<^verbatim>\<open>COALESCE(1.0 / (k + rank), 0.0)\<close>: null arithmetic gives null and hence 0; a zero
  divisor is an error of the server.
\<close>

definition reciprocal :: "rat \<Rightarrow> nat option \<Rightarrow> error + rat" where
  "reciprocal k rank =
     (case rank of
        None \<Rightarrow> Inr 0
      | Some r \<Rightarrow> if k + of_nat r = 0 then Inl (DatabaseError ''division by zero'')
                  else Inr (1 / (k + of_nat r)))"

text \<open>The \<^verbatim>\<open>score\<close> column.\<close>

definition fused_score :: "rat \<Rightarrow> rat \<Rightarrow> rat \<Rightarrow> nat option \<Rightarrow> nat option \<Rightarrow> error + rat" where
  "fused_score k weight_keyword weight_semantic semantic_rank keyword_rank =
     and_then (reciprocal k semantic_rank) (\<lambda>s.
     and_then (reciprocal k keyword_rank) (\<lambda>kw.
       Inr (weight_semantic * s + weight_keyword * kw)))"

definition select_row :: "rat \<Rightarrow> rat \<Rightarrow> rat \<Rightarrow> joined \<Rightarrow> error + (string \<times> rat)" where
  "select_row k weight_keyword weight_semantic j =
     and_then (fused_score k weight_keyword weight_semantic (left_rank j) (right_rank j))
       (\<lambda>score. Inr (coalesce_id j, score))"

text \<open>The select list is computed on every row of the join; the first error ends the statement.\<close>

fun traverse :: "('a \<Rightarrow> error + 'b) \<Rightarrow> 'a list \<Rightarrow> error + 'b list" where
  "traverse f [] = Inr []"
| "traverse f (x # xs) = and_then (f x) (\<lambda>y. and_then (traverse f xs) (\<lambda>ys. Inr (y # ys)))"

definition candidate_pool ::
  "ranked list \<Rightarrow> ranked list \<Rightarrow> rat \<Rightarrow> rat \<Rightarrow> rat \<Rightarrow> error + (string \<times> rat) list" where
  "candidate_pool semantic keyword k weight_keyword weight_semantic =
     traverse (select_row k weight_keyword weight_semantic) (full_outer_join semantic keyword)"

text \<open>\<^verbatim>\<open>ORDER BY score DESC\<close> and the final \<^verbatim>\<open>LIMIT\<close>.\<close>

definition order_by_score_desc :: "(string \<times> rat) list \<Rightarrow> (string \<times> rat) list" where
  "order_by_score_desc rows = sort_key (\<lambda>row. - snd row) rows"

definition fusion_select ::
  "ranked list \<Rightarrow> ranked list \<Rightarrow> int \<Rightarrow> rat \<Rightarrow> rat \<Rightarrow> rat \<Rightarrow> error + (string \<times> rat) list" where
  "fusion_select semantic keyword top_n k weight_keyword weight_semantic =
     and_then (candidate_pool semantic keyword k weight_keyword weight_semantic)
       (\<lambda>pool. limit top_n (order_by_score_desc pool))"

text \<open>The whole statement, in either dialect: what \<^verbatim>\<open>cur.fetchall()\<close> returns.\<close>

definition rrf_query ::
  "bool \<Rightarrow> dense_row list \<Rightarrow> sparse_row list \<Rightarrow> int \<Rightarrow> rat \<Rightarrow> rat \<Rightarrow> rat \<Rightarrow>
   error + (string \<times> rat) list" where
  "rrf_query pg_textsearch dense_table sparse_table top_n k weight_keyword weight_semantic =
     and_then (if pg_textsearch then vector_search top_n dense_table
               else semantic_search top_n dense_table) (\<lambda>semantic.
     and_then (if pg_textsearch then keyword_search_bm25 top_n sparse_table
               else keyword_search top_n sparse_table) (\<lambda>keyword.
       fusion_select semantic keyword top_n k weight_keyword weight_semantic))"

text \<open>
  The value of \<^verbatim>\<open>COALESCE(1.0 / (k + rank), 0.0)\<close> and the selected row where no
  division fails.
\<close>

definition reciprocal_value :: "rat \<Rightarrow> nat option \<Rightarrow> rat" where
  "reciprocal_value k rank = (case rank of None \<Rightarrow> 0 | Some r \<Rightarrow> 1 / (k + of_nat r))"

definition scored :: "rat \<Rightarrow> rat \<Rightarrow> rat \<Rightarrow> joined \<Rightarrow> string \<times> rat" where
  "scored k weight_keyword weight_semantic j =
     (coalesce_id j,
      weight_semantic * reciprocal_value k (left_rank j) +
      weight_keyword * reciprocal_value k (right_rank j))"

text \<open>A rank list in which the id \<open>i\<close> has been moved to rank \<open>r\<close>.\<close>

definition set_rank :: "string \<Rightarrow> nat \<Rightarrow> ranked list \<Rightarrow> ranked list" where
  "set_rank i r ranks = map (\<lambda>(j, old). if j = i then (j, r) else (j, old)) ranks"

text \<open>
  The fused score as the specification writes it, from the two rank lists read as maps
  from id to rank.
\<close>

definition spec_fused_score :: "rat \<Rightarrow> rat \<Rightarrow> rat \<Rightarrow> ranked list \<Rightarrow> ranked list \<Rightarrow> string \<Rightarrow> rat" where
  "spec_fused_score k weight_keyword weight_semantic sparse_ranks dense_ranks i =
     weight_keyword * (case map_of sparse_ranks i of None \<Rightarrow> 0 | Some r \<Rightarrow> 1 / (k + of_nat r)) +
     weight_semantic * (case map_of dense_ranks i of None \<Rightarrow> 0 | Some r \<Rightarrow> 1 / (k + of_nat r))"

text \<open>Two small tables for concrete runs; \<^verbatim>\<open>d1\<close> and \<^verbatim>\<open>d2\<close> are at the same distance.\<close>

definition demo_dense :: "dense_row list" where
  "demo_dense = [\<lparr>dense_id = ''d3'', distance = 3/10\<rparr>, \<lparr>dense_id = ''d1'', distance = 1/10\<rparr>,
                 \<lparr>dense_id = ''d2'', distance = 1/10\<rparr>, \<lparr>dense_id = ''d4'', distance = 4/10\<rparr>]"

definition demo_sparse :: "sparse_row list" where
  "demo_sparse = [\<lparr>sparse_id = ''d1'', matches = True, ts_rank = 1/10, bm25_distance = -1\<rparr>,
                  \<lparr>sparse_id = ''d5'', matches = True, ts_rank = 2/10, bm25_distance = -2\<rparr>,
                  \<lparr>sparse_id = ''d4'', matches = False, ts_rank = 0, bm25_distance = 0\<rparr>,
                  \<lparr>sparse_id = ''d3'', matches = True, ts_rank = 1/10, bm25_distance = -1\<rparr>]"

section \<open>Properties\<close>

subsection \<open>The resolver\<close>

lemma search_type_message_names_table: "sublist t (search_type_message t)"
  unfolding search_type_message_def by (rule sublist_appendI)

lemma index_type_message_names_table: "sublist t (index_type_message t)"
  unfolding index_type_message_def by (rule sublist_appendI)

text \<open>
  C5. For every table name, both resolvers (\<open>get_search_type\<close> of the searcher and
  \<open>get_index_type\<close> of the indexer) return SPARSE when the table has a \<^verbatim>\<open>contents\<close>
  column, DENSE when it has no \<^verbatim>\<open>contents\<close> column but an \<^verbatim>\<open>embedding\<close> column, and
  otherwise raise an error whose message contains the table name; they raise in exactly
  that last case.
\<close>

theorem resolver_classifies:
  "(''contents'' \<in> set (cat t) \<longrightarrow>
      get_search_type cat t = Inr SPARSE \<and> get_index_type cat t = Inr Index_SPARSE) \<and>
   (''contents'' \<notin> set (cat t) \<and> ''embedding'' \<in> set (cat t) \<longrightarrow>
      get_search_type cat t = Inr DENSE \<and> get_index_type cat t = Inr Index_DENSE) \<and>
   (''contents'' \<notin> set (cat t) \<and> ''embedding'' \<notin> set (cat t) \<longrightarrow>
      (\<exists>msg. get_search_type cat t = Inl (ValueError msg) \<and> sublist t msg) \<and>
      (\<exists>msg. get_index_type cat t = Inl (ValueError msg) \<and> sublist t msg)) \<and>
   (isl (get_search_type cat t) \<longleftrightarrow>
      ''contents'' \<notin> set (cat t) \<and> ''embedding'' \<notin> set (cat t)) \<and>
   (isl (get_index_type cat t) \<longleftrightarrow>
      ''contents'' \<notin> set (cat t) \<and> ''embedding'' \<notin> set (cat t))"
  by (simp add: get_search_type_def get_index_type_def Let_def
      search_type_message_names_table index_type_message_names_table)

theorem resolver_classifies_witness:
  "get_search_type demo_catalog ''sparse'' = Inr SPARSE \<and>
   get_index_type demo_catalog ''sparse'' = Inr Index_SPARSE \<and>
   get_search_type demo_catalog ''dense'' = Inr DENSE \<and>
   get_index_type demo_catalog ''dense'' = Inr Index_DENSE \<and>
   (\<exists>msg. get_search_type demo_catalog ''other'' = Inl (ValueError msg) \<and> sublist ''other'' msg) \<and>
   (\<exists>msg. get_index_type demo_catalog ''other'' = Inl (ValueError msg) \<and> sublist ''other'' msg) \<and>
   isl (get_search_type demo_catalog ''other'') \<and>
   \<not> isl (get_index_type demo_catalog ''dense'')"
  using resolver_classifies [of demo_catalog "''sparse''"]
    resolver_classifies [of demo_catalog "''dense''"]
    resolver_classifies [of demo_catalog "''other''"]
  by (simp add: demo_catalog_def)

text \<open>
  C10. A table whose schema has both a \<^verbatim>\<open>contents\<close> and an \<^verbatim>\<open>embedding\<close> column is
  classified SPARSE by both resolvers, and DENSE is returned only when \<^verbatim>\<open>contents\<close> is
  absent.
\<close>

theorem contents_takes_precedence:
  "(''contents'' \<in> set (cat t) \<and> ''embedding'' \<in> set (cat t) \<longrightarrow>
      get_search_type cat t = Inr SPARSE \<and> get_index_type cat t = Inr Index_SPARSE) \<and>
   (get_search_type cat t = Inr DENSE \<longrightarrow> ''contents'' \<notin> set (cat t)) \<and>
   (get_index_type cat t = Inr Index_DENSE \<longrightarrow> ''contents'' \<notin> set (cat t))"
  by (simp add: get_search_type_def get_index_type_def Let_def)

theorem contents_takes_precedence_witness:
  "get_search_type demo_catalog ''both'' = Inr SPARSE \<and>
   get_index_type demo_catalog ''both'' = Inr Index_SPARSE \<and>
   get_search_type demo_catalog ''dense'' = Inr DENSE \<and>
   get_index_type demo_catalog ''dense'' = Inr Index_DENSE \<and>
   ''contents'' \<notin> set (demo_catalog ''dense'')"
  using contents_takes_precedence [of demo_catalog "''both''"]
    contents_takes_precedence [of demo_catalog "''dense''"]
  by (simp add: demo_catalog_def get_search_type_def get_index_type_def Let_def)

subsection \<open>Query normalisation\<close>

lemma space_is_space: "is_space uni CHR '' ''"
  by (simp add: is_space_def char_class_def)

lemma word_not_space: "is_word uni c \<Longrightarrow> \<not> is_space uni c"
  by (simp add: is_word_def is_space_def)

lemma split_from_dropWhile: "split_from uni [] (dropWhile (is_space uni) s) = split_from uni [] s"
  by (induction s) simp_all

lemma split_from_spaces:
  "\<forall>c\<in>set t. is_space uni c \<Longrightarrow> split_from uni w t = (if w = [] then [] else [w])"
  by (induction t arbitrary: w) simp_all

lemma split_from_append_spaces:
  "\<forall>c\<in>set t. is_space uni c \<Longrightarrow> split_from uni w (s @ t) = split_from uni w s"
  by (induction s arbitrary: w) (simp_all add: split_from_spaces)

lemma split_from_strip: "split_from uni [] (str_strip uni s) = split_from uni [] s"
proof -
  let ?d = "dropWhile (is_space uni) s"
  have "rev (dropWhile (is_space uni) (rev ?d)) @ rev (takeWhile (is_space uni) (rev ?d)) = ?d"
    by (metis rev_append rev_rev_ident takeWhile_dropWhile_id)
  moreover have "\<forall>c\<in>set (rev (takeWhile (is_space uni) (rev ?d))). is_space uni c"
    by (auto dest: set_takeWhileD)
  ultimately have "split_from uni [] (rev (dropWhile (is_space uni) (rev ?d))) = split_from uni [] ?d"
    by (metis split_from_append_spaces)
  then show ?thesis
    by (simp add: str_strip_def split_from_dropWhile)
qed

lemma split_from_sub_space_runs:
  "split_from uni w (sub_space_runs uni s) = split_from uni w s"
proof (induction uni s arbitrary: w rule: sub_space_runs.induct)
  case (1 uni)
  then show ?case by simp
next
  case (2 uni c cs)
  then show ?case
    by (simp add: space_is_space split_from_dropWhile)
qed

lemma split_from_sub_non_word_space:
  "split_from uni w (sub_non_word_space uni s) = terms_from uni w s"
  by (induction s arbitrary: w)
    (auto simp: sub_non_word_space_def space_is_space word_not_space)

lemma clean_tsquery_terms: "clean_tsquery uni q = str_join '' | '' (query_terms uni q)"
  by (simp add: clean_tsquery_def str_split_def query_terms_def split_from_strip
      split_from_sub_space_runs split_from_sub_non_word_space)

lemma terms_from_words:
  "list_all (is_word uni) w \<Longrightarrow> t \<in> set (terms_from uni w s) \<Longrightarrow> t \<noteq> [] \<and> list_all (is_word uni) t"
proof (induction s arbitrary: w)
  case Nil
  then show ?case by (auto split: if_splits)
next
  case (Cons c cs)
  show ?case
  proof (cases "is_word uni c")
    case True
    with Cons.prems have "list_all (is_word uni) (w @ [c])" "t \<in> set (terms_from uni (w @ [c]) cs)"
      by simp_all
    then show ?thesis by (rule Cons.IH)
  next
    case False
    have nil: "list_all (is_word uni) []" by simp
    from False Cons.prems consider "t \<in> set (terms_from uni [] cs)" | "w \<noteq> []" "t = w"
      by (auto split: if_splits)
    then show ?thesis
    proof cases
      case 1
      with nil show ?thesis by (rule Cons.IH)
    next
      case 2
      with Cons.prems show ?thesis by simp
    qed
  qed
qed

subsection \<open>Table resolution in \<^verbatim>\<open>rrf_search\<close>\<close>

lemma resolve_tables_pair:
  "resolve_tables cat [t0, t1] =
     and_then (get_search_type cat t0) (\<lambda>type0.
     and_then (get_search_type cat t1) (\<lambda>type1.
       Inr (if type0 = SPARSE then t0 else t1, if type1 = DENSE then t1 else t0)))"
  by (simp add: resolve_tables_def subscript_def and_then_def split: sum.splits)

text \<open>
  C2, as the code has it. \<^verbatim>\<open>rrf_search\<close> has no test for two tables of one kind and
  does not stop before the retrieval query: when both table names resolve to the same
  kind, it goes on with the fallback assignment, the first name for both roles if both
  are SPARSE and the second name for both roles if both are DENSE, and passes the fusion
  statement built on that one table to \<^verbatim>\<open>cur.execute\<close>. For two DENSE tables the
  table put in the sparse role has no \<^verbatim>\<open>contents\<close> column, the column the statement
  reads from it. What the server answers to the statement is not part of the property.
\<close>

theorem same_kind_tables_fall_back:
  "get_search_type (conn self) t0 = Inr ty \<Longrightarrow> get_search_type (conn self) t1 = Inr ty \<Longrightarrow>
   rrf_search uni idx self q v n k [t0, t1] wk ws =
     Inr (fusion_statement uni idx (use_pg_textsearch self)
            (if ty = SPARSE then t0 else t1) (if ty = SPARSE then t0 else t1) q v n k wk ws) \<and>
   (ty = DENSE \<longrightarrow> ''contents'' \<notin> set (conn self t1))"
  by (cases ty)
    (auto simp: rrf_search_def resolve_tables_pair and_then_def get_search_type_def Let_def
      split: if_splits)

theorem same_kind_tables_fall_back_witness:
  "rrf_search ascii_classes demo_bm25_index demo_searcher ''q'' ''[1,0]'' 5 60
     [''both'', ''sparse''] 1 1 =
   Inr (fusion_statement ascii_classes demo_bm25_index False ''both'' ''both''
          ''q'' ''[1,0]'' 5 60 1 1) \<and>
   rrf_search ascii_classes demo_bm25_index demo_textsearch_searcher ''q'' ''[1,0]'' 5 60
     [''dense'', ''dense2''] 1 1 =
   Inr (fusion_statement ascii_classes demo_bm25_index True ''dense2'' ''dense2''
          ''q'' ''[1,0]'' 5 60 1 1) \<and>
   ''contents'' \<notin> set (conn demo_textsearch_searcher ''dense2'')"
proof -
  have sparse: "get_search_type (conn demo_searcher) ''both'' = Inr SPARSE"
    "get_search_type (conn demo_searcher) ''sparse'' = Inr SPARSE"
    by (simp_all add: demo_searcher_def demo_catalog_def get_search_type_def Let_def)
  have dense: "get_search_type (conn demo_textsearch_searcher) ''dense'' = Inr DENSE"
    "get_search_type (conn demo_textsearch_searcher) ''dense2'' = Inr DENSE"
    by (simp_all add: demo_textsearch_searcher_def demo_catalog_def get_search_type_def Let_def)
  have pg: "use_pg_textsearch demo_searcher = False" "use_pg_textsearch demo_textsearch_searcher = True"
    by (simp_all add: demo_searcher_def demo_textsearch_searcher_def)
  from same_kind_tables_fall_back [OF sparse, of ascii_classes demo_bm25_index "''q''" "''[1,0]''" 5 60 1 1]
    same_kind_tables_fall_back [OF dense, of ascii_classes demo_bm25_index "''q''" "''[1,0]''" 5 60 1 1]
  show ?thesis by (simp add: pg)
qed

text \<open>
  C2 as stated fails: with two DENSE tables the call does not fail before the retrieval
  query; it builds the fusion statement with the second table in both roles and passes
  it to \<^verbatim>\<open>cur.execute\<close>.
\<close>

theorem same_kind_tables_counterexample:
  "get_search_type (conn demo_searcher) ''dense'' = Inr DENSE \<and>
   get_search_type (conn demo_searcher) ''dense2'' = Inr DENSE \<and>
   rrf_search ascii_classes demo_bm25_index demo_searcher ''q'' ''[1,0]'' 5 60
     [''dense'', ''dense2''] 1 1 =
   Inr (fusion_statement ascii_classes demo_bm25_index False ''dense2'' ''dense2''
          ''q'' ''[1,0]'' 5 60 1 1)"
  by (simp add: rrf_search_def resolve_tables_pair and_then_def demo_searcher_def
      demo_catalog_def get_search_type_def Let_def)

subsection \<open>Statements and their arguments\<close>

lemma rrf_search_args:
  "rrf_search uni idx self q v n k ts wk ws = Inr st \<Longrightarrow>
   \<exists>sparse_table dense_table.
     st = fusion_statement uni idx (use_pg_textsearch self) sparse_table dense_table q v n k wk ws"
  by (auto simp: rrf_search_def and_then_def split: sum.splits)

text \<open>
  C4, as the code has it. \<^verbatim>\<open>clean_tsquery\<close> turns every character that is neither a
  word character nor whitespace into a space, collapses runs of whitespace, splits the
  text into terms and joins them with \<^verbatim>\<open>" | "\<close>: its result is the query's maximal
  runs of word characters, none empty, joined with \<^verbatim>\<open>" | "\<close>. Without
  \<^verbatim>\<open>use_pg_textsearch\<close>, \<^verbatim>\<open>fts_search\<close> and \<^verbatim>\<open>rrf_search\<close> both bind this
  normalised text as the query argument. With \<^verbatim>\<open>use_pg_textsearch\<close>, neither of them
  normalises: both bind the query text as it was given.
\<close>

theorem normalisation_by_dialect:
  "clean_tsquery uni q = str_join '' | '' (query_terms uni q) \<and>
   (\<forall>t\<in>set (query_terms uni q). t \<noteq> [] \<and> list_all (is_word uni) t) \<and>
   (\<not> use_pg_textsearch self \<longrightarrow>
      args (fts_search uni idx self q n t) =
        Tuple [PStr (clean_tsquery uni q), PStr (clean_tsquery uni q), PInt n] \<and>
      (\<forall>st. rrf_search uni idx self q v n k ts wk ws = Inr st \<longrightarrow>
         args st = Dict [(''query'', PStr (clean_tsquery uni q)), (''vector'', PStr v),
                         (''n'', PInt n), (''k'', PNum k),
                         (''w_sem'', PNum ws), (''w_key'', PNum wk)])) \<and>
   (use_pg_textsearch self \<longrightarrow>
      args (fts_search uni idx self q n t) =
        Dict [(''q'', PStr q), (''idx'', PStr (idx t)), (''n'', PInt n)] \<and>
      (\<forall>st. rrf_search uni idx self q v n k ts wk ws = Inr st \<longrightarrow>
         (\<exists>sparse_table.
            args st = Dict [(''q'', PStr q), (''vector'', PStr v), (''n'', PInt n), (''k'', PNum k),
                            (''idx'', PStr (idx sparse_table)),
                            (''w_sem'', PNum ws), (''w_key'', PNum wk)])))"
proof (intro conjI impI allI ballI)
  show "clean_tsquery uni q = str_join '' | '' (query_terms uni q)"
    by (rule clean_tsquery_terms)
next
  fix t assume "t \<in> set (query_terms uni q)"
  then have "t \<in> set (terms_from uni [] q)" by (simp add: query_terms_def)
  moreover have "list_all (is_word uni) []" by simp
  ultimately have "t \<noteq> [] \<and> list_all (is_word uni) t" by (rule terms_from_words [rotated])
  then show "t \<noteq> []" "list_all (is_word uni) t" by simp_all
next
  assume "\<not> use_pg_textsearch self"
  then show "args (fts_search uni idx self q n t) =
        Tuple [PStr (clean_tsquery uni q), PStr (clean_tsquery uni q), PInt n]"
    by (simp add: fts_search_def Let_def)
next
  fix st assume "\<not> use_pg_textsearch self" "rrf_search uni idx self q v n k ts wk ws = Inr st"
  then show "args st = Dict [(''query'', PStr (clean_tsquery uni q)), (''vector'', PStr v),
                         (''n'', PInt n), (''k'', PNum k),
                         (''w_sem'', PNum ws), (''w_key'', PNum wk)]"
    by (auto dest!: rrf_search_args simp: fusion_statement_def Let_def)
next
  assume "use_pg_textsearch self"
  then show "args (fts_search uni idx self q n t) =
        Dict [(''q'', PStr q), (''idx'', PStr (idx t)), (''n'', PInt n)]"
    by (simp add: fts_search_def Let_def)
next
  fix st assume "use_pg_textsearch self" "rrf_search uni idx self q v n k ts wk ws = Inr st"
  then show "\<exists>sparse_table.
            args st = Dict [(''q'', PStr q), (''vector'', PStr v), (''n'', PInt n), (''k'', PNum k),
                            (''idx'', PStr (idx sparse_table)),
                            (''w_sem'', PNum ws), (''w_key'', PNum wk)]"
    by (auto dest!: rrf_search_args simp: fusion_statement_def Let_def)
qed

lemma demo_rrf:
  "rrf_search uni idx demo_searcher q v n k [''sparse'', ''dense''] wk ws =
     Inr (fusion_statement uni idx False ''sparse'' ''dense'' q v n k wk ws)"
  "rrf_search uni idx demo_textsearch_searcher q v n k [''sparse'', ''dense''] wk ws =
     Inr (fusion_statement uni idx True ''sparse'' ''dense'' q v n k wk ws)"
  by (simp_all add: rrf_search_def resolve_tables_pair and_then_def demo_searcher_def
      demo_textsearch_searcher_def demo_catalog_def get_search_type_def Let_def)

theorem normalisation_by_dialect_witness:
  "clean_tsquery ascii_classes ''state-of-the-art?'' = ''state | of | the | art'' \<and>
   query_terms ascii_classes ''state-of-the-art?'' = [''state'', ''of'', ''the'', ''art''] \<and>
   args (fts_search ascii_classes demo_bm25_index demo_searcher ''state-of-the-art?'' 5 ''sparse'') =
     Tuple [PStr ''state | of | the | art'', PStr ''state | of | the | art'', PInt 5] \<and>
   args (fts_search ascii_classes demo_bm25_index demo_textsearch_searcher ''state-of-the-art?'' 5 ''sparse'') =
     Dict [(''q'', PStr ''state-of-the-art?''), (''idx'', PStr ''sparse_bm25_idx''), (''n'', PInt 5)] \<and>
   (\<exists>st. rrf_search ascii_classes demo_bm25_index demo_searcher ''state-of-the-art?'' ''[1,0]'' 5 60
           [''sparse'', ''dense''] 1 1 = Inr st \<and>
         args st = Dict [(''query'', PStr ''state | of | the | art''), (''vector'', PStr ''[1,0]''),
                         (''n'', PInt 5), (''k'', PNum 60), (''w_sem'', PNum 1), (''w_key'', PNum 1)])"
proof -
  have terms: "query_terms ascii_classes ''state-of-the-art?'' = [''state'', ''of'', ''the'', ''art'']"
    by code_simp
  have pg: "use_pg_textsearch demo_textsearch_searcher" "\<not> use_pg_textsearch demo_searcher"
    by (simp_all add: demo_textsearch_searcher_def demo_searcher_def)
  note a = normalisation_by_dialect [of ascii_classes "''state-of-the-art?''" demo_searcher
      demo_bm25_index 5 "''sparse''" "''[1,0]''" 60 "[''sparse'', ''dense'']" 1 1]
  note b = normalisation_by_dialect [of ascii_classes "''state-of-the-art?''" demo_textsearch_searcher
      demo_bm25_index 5 "''sparse''" "''[1,0]''" 60 "[''sparse'', ''dense'']" 1 1]
  from a b pg terms show ?thesis
    by (simp add: demo_rrf demo_bm25_index_def)
qed

text \<open>
  C4 as stated fails in the \<^verbatim>\<open>pg_textsearch\<close> dialect: the text
  \<^verbatim>\<open>state-of-the-art?\<close> normalises to \<^verbatim>\<open>state | of | the | art\<close>, yet both
  \<^verbatim>\<open>fts_search\<close> and \<^verbatim>\<open>rrf_search\<close> bind it unchanged.
\<close>

theorem normalisation_by_dialect_counterexample:
  "clean_tsquery ascii_classes ''state-of-the-art?'' = ''state | of | the | art'' \<and>
   args (fts_search ascii_classes demo_bm25_index demo_textsearch_searcher ''state-of-the-art?'' 5 ''sparse'') =
     Dict [(''q'', PStr ''state-of-the-art?''), (''idx'', PStr ''sparse_bm25_idx''), (''n'', PInt 5)] \<and>
   map_sum id args (rrf_search ascii_classes demo_bm25_index demo_textsearch_searcher
       ''state-of-the-art?'' ''[1,0]'' 5 60 [''sparse'', ''dense''] 1 1) =
     Inr (Dict [(''q'', PStr ''state-of-the-art?''), (''vector'', PStr ''[1,0]''), (''n'', PInt 5),
                (''k'', PNum 60), (''idx'', PStr ''sparse_bm25_idx''),
                (''w_sem'', PNum 1), (''w_key'', PNum 1)])"
proof (intro conjI)
  show "clean_tsquery ascii_classes ''state-of-the-art?'' = ''state | of | the | art''"
    by code_simp
  show "args (fts_search ascii_classes demo_bm25_index demo_textsearch_searcher ''state-of-the-art?'' 5 ''sparse'') =
     Dict [(''q'', PStr ''state-of-the-art?''), (''idx'', PStr ''sparse_bm25_idx''), (''n'', PInt 5)]"
    by (simp add: fts_search_def Let_def demo_bm25_index_def demo_textsearch_searcher_def)
  show "map_sum id args (rrf_search ascii_classes demo_bm25_index demo_textsearch_searcher
       ''state-of-the-art?'' ''[1,0]'' 5 60 [''sparse'', ''dense''] 1 1) =
     Inr (Dict [(''q'', PStr ''state-of-the-art?''), (''vector'', PStr ''[1,0]''), (''n'', PInt 5),
                (''k'', PNum 60), (''idx'', PStr ''sparse_bm25_idx''),
                (''w_sem'', PNum 1), (''w_key'', PNum 1)])"
    by (simp add: demo_rrf fusion_statement_def Let_def demo_bm25_index_def)
qed



subsection \<open>The fusion statement\<close>

lemma and_then_Inr: "and_then (Inr v) f = f v"
  by (simp add: and_then_def)

lemma traverse_total: "(\<And>x. x \<in> set xs \<Longrightarrow> f x = Inr (g x)) \<Longrightarrow> traverse f xs = Inr (map g xs)"
  by (induction xs) (simp_all add: and_then_Inr)

lemma reciprocal_positive: "0 < k \<Longrightarrow> reciprocal k rank = Inr (reciprocal_value k rank)"
proof (cases rank)
  case None
  then show ?thesis by (simp add: reciprocal_def reciprocal_value_def)
next
  case (Some r)
  assume "0 < k"
  moreover have "(0::rat) \<le> of_nat r" by simp
  ultimately have "k + of_nat r \<noteq> 0" by linarith
  with Some show ?thesis by (simp add: reciprocal_def reciprocal_value_def)
qed

lemma select_row_positive: "0 < k \<Longrightarrow> select_row k wk ws j = Inr (scored k wk ws j)"
  by (simp add: select_row_def fused_score_def reciprocal_positive and_then_Inr scored_def)

lemma candidate_pool_positive:
  "0 < k \<Longrightarrow> candidate_pool v kw k wk ws = Inr (map (scored k wk ws) (full_outer_join v kw))"
  unfolding candidate_pool_def by (rule traverse_total) (rule select_row_positive)

lemma set_full_outer_join:
  "set (full_outer_join L R) =
     {Both l r | l r. l \<in> set L \<and> r \<in> set R \<and> fst l = fst r} \<union>
     {LeftOnly l | l. l \<in> set L \<and> fst l \<notin> fst ` set R} \<union>
     {RightOnly r | r. r \<in> set R \<and> fst r \<notin> fst ` set L}"
proof -
  have left: "set (let partners = filter (\<lambda>r. fst l = fst r) R in
                if partners = [] then [LeftOnly l] else map (Both l) partners) =
       {Both l r | r. r \<in> set R \<and> fst l = fst r} \<union>
       (if fst l \<in> fst ` set R then {} else {LeftOnly l})" for l
    by (auto simp: Let_def filter_empty_conv image_iff)
  have "set (full_outer_join L R) =
      (\<Union>l\<in>set L. {Both l r | r. r \<in> set R \<and> fst l = fst r} \<union>
         (if fst l \<in> fst ` set R then {} else {LeftOnly l})) \<union>
      RightOnly ` {r \<in> set R. fst r \<notin> fst ` set L}"
    unfolding full_outer_join_def set_append set_concat set_map image_image left
    by simp
  also have "\<dots> = {Both l r | l r. l \<in> set L \<and> r \<in> set R \<and> fst l = fst r} \<union>
     {LeftOnly l | l. l \<in> set L \<and> fst l \<notin> fst ` set R} \<union>
     {RightOnly r | r. r \<in> set R \<and> fst r \<notin> fst ` set L}"
    by (auto simp: image_iff split: if_splits)
  finally show ?thesis .
qed

lemma Both_in_join:
  "Both l r \<in> set (full_outer_join L R) \<longleftrightarrow> l \<in> set L \<and> r \<in> set R \<and> fst l = fst r"
  unfolding set_full_outer_join by blast

lemma LeftOnly_in_join:
  "LeftOnly l \<in> set (full_outer_join L R) \<longleftrightarrow> l \<in> set L \<and> fst l \<notin> fst ` set R"
  unfolding set_full_outer_join by blast

lemma RightOnly_in_join:
  "RightOnly r \<in> set (full_outer_join L R) \<longleftrightarrow> r \<in> set R \<and> fst r \<notin> fst ` set L"
  unfolding set_full_outer_join by blast

lemma ids_full_outer_join:
  "coalesce_id ` set (full_outer_join L R) = fst ` set L \<union> fst ` set R"
proof (intro set_eqI iffI)
  fix i assume "i \<in> coalesce_id ` set (full_outer_join L R)"
  then show "i \<in> fst ` set L \<union> fst ` set R"
    by (force simp: set_full_outer_join)
next
  fix i assume i: "i \<in> fst ` set L \<union> fst ` set R"
  show "i \<in> coalesce_id ` set (full_outer_join L R)"
  proof (cases "i \<in> fst ` set L")
    case True
    then obtain l where l: "l \<in> set L" "fst l = i" by auto
    show ?thesis
    proof (cases "i \<in> fst ` set R")
      case True
      then obtain r where "r \<in> set R" "fst r = i" by auto
      with l have "Both l r \<in> set (full_outer_join L R)"
        by (simp add: Both_in_join)
      then have "coalesce_id (Both l r) \<in> coalesce_id ` set (full_outer_join L R)" by (rule imageI)
      with l show ?thesis by simp
    next
      case False
      with l have "LeftOnly l \<in> set (full_outer_join L R)"
        by (simp add: LeftOnly_in_join)
      then have "coalesce_id (LeftOnly l) \<in> coalesce_id ` set (full_outer_join L R)" by (rule imageI)
      with l show ?thesis by simp
    qed
  next
    case False
    with i obtain r where r: "r \<in> set R" "fst r = i" by auto
    with False have "RightOnly r \<in> set (full_outer_join L R)"
      by (simp add: RightOnly_in_join)
    then have "coalesce_id (RightOnly r) \<in> coalesce_id ` set (full_outer_join L R)" by (rule imageI)
    with r show ?thesis by simp
  qed
qed

lemma fst_scored: "fst (scored k wk ws j) = coalesce_id j"
  by (simp add: scored_def)

lemma ids_pool: "fst ` set (map (scored k wk ws) (full_outer_join L R)) = fst ` set L \<union> fst ` set R"
proof -
  have "fst ` set (map (scored k wk ws) (full_outer_join L R)) = coalesce_id ` set (full_outer_join L R)"
    by (simp add: image_image fst_scored)
  then show ?thesis by (simp only: ids_full_outer_join)
qed

lemma partners_distinct:
  "distinct (map fst R) \<Longrightarrow>
   filter (\<lambda>r. i = fst r) R = (case map_of R i of None \<Rightarrow> [] | Some b \<Rightarrow> [(i, b)])"
proof (induction R)
  case Nil
  then show ?case by simp
next
  case (Cons r R)
  obtain j c where r: "r = (j, c)" by (cases r)
  from Cons.prems r have notin: "j \<notin> fst ` set R" and dist: "distinct (map fst R)" by simp_all
  show ?case
  proof (cases "i = j")
    case True
    with notin have "map_of R i = None" by (simp add: map_of_eq_None_iff)
    with Cons.IH [OF dist] have "filter (\<lambda>r. i = fst r) R = []" by simp
    with True r show ?thesis by simp
  next
    case False
    with r Cons.IH [OF dist] show ?thesis by simp
  qed
qed

lemma full_outer_join_distinct:
  assumes "distinct (map fst R)"
  shows "full_outer_join L R =
     map (\<lambda>l. case map_of R (fst l) of None \<Rightarrow> LeftOnly l | Some b \<Rightarrow> Both l (fst l, b)) L @
     map RightOnly (filter (\<lambda>r. fst r \<notin> set (map fst L)) R)"
proof -
  have "(let partners = filter (\<lambda>r. fst l = fst r) R in
           if partners = [] then [LeftOnly l] else map (Both l) partners) =
        [case map_of R (fst l) of None \<Rightarrow> LeftOnly l | Some b \<Rightarrow> Both l (fst l, b)]" for l
    by (simp add: partners_distinct [OF assms] split: option.splits)
  then have "concat (map (\<lambda>l. let partners = filter (\<lambda>r. fst l = fst r) R in
                        if partners = [] then [LeftOnly l] else map (Both l) partners) L) =
      map (\<lambda>l. case map_of R (fst l) of None \<Rightarrow> LeftOnly l | Some b \<Rightarrow> Both l (fst l, b)) L"
    by (induction L) simp_all
  then show ?thesis by (simp add: full_outer_join_def)
qed

lemma pool_ids_distinct:
  assumes "distinct (map fst L)" "distinct (map fst R)"
  shows "distinct (map fst (map (scored k wk ws) (full_outer_join L R)))"
proof -
  have left: "map coalesce_id
      (map (\<lambda>l. case map_of R (fst l) of None \<Rightarrow> LeftOnly l | Some b \<Rightarrow> Both l (fst l, b)) L) =
      map fst L"
    by (induction L) (simp_all split: option.splits)
  have right: "map coalesce_id (map RightOnly (filter (\<lambda>r. fst r \<notin> set (map fst L)) R)) =
      map fst (filter (\<lambda>r. fst r \<notin> set (map fst L)) R)"
    by simp
  have ids: "map fst (map (scored k wk ws) (full_outer_join L R)) =
      map fst L @ map fst (filter (\<lambda>r. fst r \<notin> set (map fst L)) R)"
    unfolding full_outer_join_distinct [OF assms(2)] map_append map_map
    using left right by (simp add: comp_def fst_scored)
  have "distinct (map fst (filter (\<lambda>r. fst r \<notin> set (map fst L)) R))"
    using assms(2) by (rule distinct_map_filter)
  moreover have "set (map fst L) \<inter> set (map fst (filter (\<lambda>r. fst r \<notin> set (map fst L)) R)) = {}"
    by force
  ultimately show ?thesis
    unfolding ids using assms(1) by simp
qed

lemma pool_lookup:
  assumes dL: "distinct (map fst L)" and dR: "distinct (map fst R)"
    and i: "i \<in> fst ` set L \<union> fst ` set R"
  shows "map_of (map (scored k wk ws) (full_outer_join L R)) i = Some (spec_fused_score k wk ws R L i)"
proof -
  let ?pool = "map (scored k wk ws) (full_outer_join L R)"
  from i have "i \<in> fst ` set ?pool" by (simp only: ids_pool)
  then obtain s where s: "map_of ?pool i = Some s"
    by (metis map_of_eq_None_iff not_Some_eq)
  then have "(i, s) \<in> set ?pool" by (rule map_of_SomeD)
  then obtain j where j: "j \<in> set (full_outer_join L R)" "scored k wk ws j = (i, s)" by auto
  from j(1) consider
      l r where "j = Both l r" "l \<in> set L" "r \<in> set R" "fst l = fst r"
    | l where "j = LeftOnly l" "l \<in> set L" "fst l \<notin> fst ` set R"
    | r where "j = RightOnly r" "r \<in> set R" "fst r \<notin> fst ` set L"
    unfolding set_full_outer_join by blast
  then have "s = spec_fused_score k wk ws R L i"
  proof cases
    case 1
    with j(2) have eq: "fst l = i" "fst r = i"
      and sv: "s = ws * (1 / (k + of_nat (snd l))) + wk * (1 / (k + of_nat (snd r)))"
      by (simp_all add: scored_def reciprocal_value_def)
    from 1 eq have "(i, snd l) \<in> set L" "(i, snd r) \<in> set R"
      by (metis prod.collapse)+
    with dL dR have "map_of L i = Some (snd l)" "map_of R i = Some (snd r)" by simp_all
    with sv show ?thesis by (simp add: spec_fused_score_def)
  next
    case 2
    with j(2) have eq: "fst l = i" and sv: "s = ws * (1 / (k + of_nat (snd l)))"
      by (simp_all add: scored_def reciprocal_value_def)
    from 2 eq have "(i, snd l) \<in> set L" "i \<notin> fst ` set R"
      by (metis prod.collapse)+
    with dL have "map_of L i = Some (snd l)" "map_of R i = None"
      by (simp_all add: map_of_eq_None_iff)
    with sv show ?thesis by (simp add: spec_fused_score_def)
  next
    case 3
    with j(2) have eq: "fst r = i" and sv: "s = wk * (1 / (k + of_nat (snd r)))"
      by (simp_all add: scored_def reciprocal_value_def)
    from 3 eq have "(i, snd r) \<in> set R" "i \<notin> fst ` set L"
      by (metis prod.collapse)+
    with dR have "map_of R i = Some (snd r)" "map_of L i = None"
      by (simp_all add: map_of_eq_None_iff)
    with sv show ?thesis by (simp add: spec_fused_score_def)
  qed
  with s show ?thesis by simp
qed

lemma order_by_score_desc_sorted:
  "sorted_wrt (\<lambda>a b. snd b \<le> snd a) (order_by_score_desc rows)"
proof -
  have "sorted (map (\<lambda>row. - snd row) (order_by_score_desc rows))"
    unfolding order_by_score_desc_def by (rule sorted_sort_key)
  then show ?thesis by (simp add: sorted_wrt_map)
qed

lemma order_by_score_desc_mset: "mset (order_by_score_desc rows) = mset rows"
  by (simp add: order_by_score_desc_def)

lemma fusion_select_positive:
  "0 < k \<Longrightarrow> 0 \<le> n \<Longrightarrow>
   fusion_select v kw n k wk ws =
     Inr (take (nat n) (order_by_score_desc (map (scored k wk ws) (full_outer_join v kw))))"
  by (simp add: fusion_select_def candidate_pool_positive and_then_Inr limit_def)

text \<open>
  The rankings of a table with distinct ids (\<^verbatim>\<open>id\<close> is the primary key) have
  distinct ids, in both dialects.
\<close>

lemma distinct_ids_sorted:
  "distinct (map ident rows) \<Longrightarrow> distinct (map ident (sort_key key rows))"
proof -
  have "mset (map ident (sort_key key rows)) = mset (map ident rows)" by simp
  then show "distinct (map ident rows) \<Longrightarrow> distinct (map ident (sort_key key rows))"
    by (metis mset_eq_imp_distinct_iff)
qed

lemma row_number_ids:
  "map (\<lambda>(r, rank). ident r) (row_number_over key rows) = map ident (sort_key key rows)"
proof -
  have "length (sort_key key rows) = length [1..<Suc (length (sort_key key rows))]"
    by (simp only: length_upt diff_Suc_1)
  then have "map fst (zip (sort_key key rows) [1..<Suc (length (sort_key key rows))]) = sort_key key rows"
    by (rule map_fst_zip)
  then have "map ident (map fst (row_number_over key rows)) = map ident (sort_key key rows)"
    by (simp only: row_number_over_def Let_def)
  then show ?thesis by (simp add: case_prod_unfold comp_def)
qed

lemma rank_ids:
  "map (\<lambda>(r, rank). ident r) (rank_over key rows) = map ident (sort_key key rows)"
  by (simp add: rank_over_def case_prod_unfold comp_def)

lemma rankings_distinct_ids:
  "distinct (map dense_id dense_table) \<Longrightarrow> vector_search n dense_table = Inr v \<Longrightarrow> distinct (map fst v)"
  "distinct (map dense_id dense_table) \<Longrightarrow> semantic_search n dense_table = Inr v \<Longrightarrow> distinct (map fst v)"
  "distinct (map sparse_id sparse_table) \<Longrightarrow> keyword_search_bm25 n sparse_table = Inr kw \<Longrightarrow> distinct (map fst kw)"
  "distinct (map sparse_id sparse_table) \<Longrightarrow> keyword_search n sparse_table = Inr kw \<Longrightarrow> distinct (map fst kw)"
proof -
  have proj: "map fst (map (\<lambda>(r, rank). (ident r, rank)) (take m zs)) =
      take m (map (\<lambda>(r, rank). ident r) zs)" for ident :: "'r \<Rightarrow> string" and m and zs :: "('r \<times> nat) list"
    by (simp add: take_map case_prod_unfold comp_def)
  {
    assume d: "distinct (map dense_id dense_table)" and r: "vector_search n dense_table = Inr v"
    from r have "v = map (\<lambda>(r, rank). (dense_id r, rank))
        (take (nat n) (sort_key (\<lambda>(r, rank). distance r) (row_number_over distance dense_table)))"
      by (auto simp: vector_search_def limit_def and_then_def split: if_splits)
    then have "map fst v = take (nat n) (map (\<lambda>(r, rank). dense_id r)
        (sort_key (\<lambda>(r, rank). distance r) (row_number_over distance dense_table)))"
      by (simp only: proj)
    moreover have "distinct (map (\<lambda>(r, rank). dense_id r)
        (sort_key (\<lambda>(r, rank). distance r) (row_number_over distance dense_table)))"
      using d by (intro distinct_ids_sorted) (simp only: row_number_ids distinct_ids_sorted)
    ultimately show "distinct (map fst v)" by (simp only: distinct_take)
  }
  {
    assume d: "distinct (map dense_id dense_table)" and r: "semantic_search n dense_table = Inr v"
    from r have "v = map (\<lambda>(r, rank). (dense_id r, rank)) (take (nat n) (rank_over distance dense_table))"
      by (auto simp: semantic_search_def limit_def and_then_def split: if_splits)
    then have "map fst v = take (nat n) (map (\<lambda>(r, rank). dense_id r) (rank_over distance dense_table))"
      by (simp only: proj)
    moreover have "distinct (map (\<lambda>(r, rank). dense_id r) (rank_over distance dense_table))"
      using d by (simp only: rank_ids distinct_ids_sorted)
    ultimately show "distinct (map fst v)" by (simp only: distinct_take)
  }
  {
    assume d: "distinct (map sparse_id sparse_table)" and r: "keyword_search_bm25 n sparse_table = Inr kw"
    from r have "kw = map (\<lambda>(r, rank). (sparse_id r, rank))
        (take (nat n) (sort_key (\<lambda>(r, rank). bm25_distance r) (row_number_over bm25_distance sparse_table)))"
      by (auto simp: keyword_search_bm25_def limit_def and_then_def split: if_splits)
    then have "map fst kw = take (nat n) (map (\<lambda>(r, rank). sparse_id r)
        (sort_key (\<lambda>(r, rank). bm25_distance r) (row_number_over bm25_distance sparse_table)))"
      by (simp only: proj)
    moreover have "distinct (map (\<lambda>(r, rank). sparse_id r)
        (sort_key (\<lambda>(r, rank). bm25_distance r) (row_number_over bm25_distance sparse_table)))"
      using d by (intro distinct_ids_sorted) (simp only: row_number_ids distinct_ids_sorted)
    ultimately show "distinct (map fst kw)" by (simp only: distinct_take)
  }
  {
    assume d: "distinct (map sparse_id sparse_table)" and r: "keyword_search n sparse_table = Inr kw"
    from r have "kw = map (\<lambda>(r, rank). (sparse_id r, rank))
        (take (nat n) (rank_over (\<lambda>r. - ts_rank r) (filter matches sparse_table)))"
      by (auto simp: keyword_search_def limit_def and_then_def split: if_splits)
    then have "map fst kw = take (nat n) (map (\<lambda>(r, rank). sparse_id r)
        (rank_over (\<lambda>r. - ts_rank r) (filter matches sparse_table)))"
      by (simp only: proj)
    moreover have "distinct (map sparse_id (filter matches sparse_table))"
      using d by (rule distinct_map_filter)
    then have "distinct (map (\<lambda>(r, rank). sparse_id r)
        (rank_over (\<lambda>r. - ts_rank r) (filter matches sparse_table)))"
      by (simp only: rank_ids distinct_ids_sorted)
    ultimately show "distinct (map fst kw)" by (simp only: distinct_take)
  }
qed

text \<open>
  C1. Let the two rank lists have distinct ids each (the \<^verbatim>\<open>id\<close> column is the primary
  key), \<open>k > 0\<close> and \<open>top_n \<ge> 0\<close>. Then the statement raises nothing; its
  candidate rows hold every id of either list exactly once; each id carries the score
  \<open>weight_keyword * (1 / (k + rank_sparse))\<close> (0 if absent from the sparse list) plus
  \<open>weight_semantic * (1 / (k + rank_dense))\<close> (0 if absent from the dense list), so an id
  in both lists gets the sum of the two terms; and the result is the first \<open>top_n\<close>
  of the candidates sorted by descending score.
\<close>

theorem rrf_fused_scores:
  assumes "0 < k" and "0 \<le> top_n"
    and "distinct (map fst dense_ranks)" and "distinct (map fst sparse_ranks)"
  shows "\<exists>pool.
     candidate_pool dense_ranks sparse_ranks k wk ws = Inr pool \<and>
     distinct (map fst pool) \<and>
     fst ` set pool = fst ` set sparse_ranks \<union> fst ` set dense_ranks \<and>
     (\<forall>i \<in> fst ` set sparse_ranks \<union> fst ` set dense_ranks.
        map_of pool i = Some (spec_fused_score k wk ws sparse_ranks dense_ranks i)) \<and>
     fusion_select dense_ranks sparse_ranks top_n k wk ws =
       Inr (take (nat top_n) (order_by_score_desc pool)) \<and>
     mset (order_by_score_desc pool) = mset pool \<and>
     sorted_wrt (\<lambda>a b. snd b \<le> snd a) (order_by_score_desc pool)"
proof (intro exI conjI ballI)
  let ?pool = "map (scored k wk ws) (full_outer_join dense_ranks sparse_ranks)"
  show "candidate_pool dense_ranks sparse_ranks k wk ws = Inr ?pool"
    using assms(1) by (rule candidate_pool_positive)
  show "distinct (map fst ?pool)"
    using assms(3,4) by (rule pool_ids_distinct)
  show "fst ` set ?pool = fst ` set sparse_ranks \<union> fst ` set dense_ranks"
    by (simp only: ids_pool Un_commute)
  show "fusion_select dense_ranks sparse_ranks top_n k wk ws =
       Inr (take (nat top_n) (order_by_score_desc ?pool))"
    using assms(1,2) by (rule fusion_select_positive)
  show "mset (order_by_score_desc ?pool) = mset ?pool"
    by (rule order_by_score_desc_mset)
  show "sorted_wrt (\<lambda>a b. snd b \<le> snd a) (order_by_score_desc ?pool)"
    by (rule order_by_score_desc_sorted)
  fix i assume "i \<in> fst ` set sparse_ranks \<union> fst ` set dense_ranks"
  then have "i \<in> fst ` set dense_ranks \<union> fst ` set sparse_ranks" by blast
  with assms(3,4) show "map_of ?pool i = Some (spec_fused_score k wk ws sparse_ranks dense_ranks i)"
    by (rule pool_lookup)
qed

theorem rrf_fused_scores_witness:
  "\<exists>pool.
     candidate_pool [(''A'', 100), (''B'', 2)] [(''A'', 1), (''B'', 2), (''C'', 3)] 60 1 1 = Inr pool \<and>
     map_of pool ''A'' = Some (1 / 61 + 1 / 160) \<and>
     map_of pool ''B'' = Some (1 / 62 + 1 / 62) \<and>
     map_of pool ''C'' = Some (1 / 63) \<and>
     fusion_select [(''A'', 100), (''B'', 2)] [(''A'', 1), (''B'', 2), (''C'', 3)] 2 60 1 1 =
       Inr (take 2 (order_by_score_desc pool))"
proof -
  let ?dense = "[(''A'', 100::nat), (''B'', 2)]"
  let ?sparse = "[(''A'', 1::nat), (''B'', 2), (''C'', 3)]"
  have "(0::rat) < 60" "(0::int) \<le> 2" "distinct (map fst ?dense)" "distinct (map fst ?sparse)"
    by simp_all
  from rrf_fused_scores [OF this, of 1 1] show ?thesis
  proof (elim exE conjE)
    fix pool
    assume pool: "candidate_pool ?dense ?sparse 60 1 1 = Inr pool"
      and score: "\<forall>i \<in> fst ` set ?sparse \<union> fst ` set ?dense.
        map_of pool i = Some (spec_fused_score 60 1 1 ?sparse ?dense i)"
      and out: "fusion_select ?dense ?sparse 2 60 1 1 = Inr (take (nat 2) (order_by_score_desc pool))"
    have a: "''A'' \<in> fst ` set ?sparse \<union> fst ` set ?dense" by simp
    have b: "''B'' \<in> fst ` set ?sparse \<union> fst ` set ?dense" by simp
    have c: "''C'' \<in> fst ` set ?sparse \<union> fst ` set ?dense" by simp
    have va: "spec_fused_score 60 1 1 ?sparse ?dense ''A'' = 1 / 61 + 1 / 160"
      by (simp add: spec_fused_score_def)
    have vb: "spec_fused_score 60 1 1 ?sparse ?dense ''B'' = 1 / 62 + 1 / 62"
      by (simp add: spec_fused_score_def)
    have vc: "spec_fused_score 60 1 1 ?sparse ?dense ''C'' = 1 / 63"
      by (simp add: spec_fused_score_def)
    have two: "nat 2 = 2" by simp
    show ?thesis
      using pool bspec [OF score a] bspec [OF score b] bspec [OF score c] out
      unfolding va vb vc two by (intro exI [of _ pool] conjI)
  qed
qed



lemma limit_Inr: "limit n rows = Inr out \<Longrightarrow> 0 \<le> n"
  by (simp add: limit_def split: if_splits)

lemma ranking_Inr:
  "(if pg then vector_search n dense else semantic_search n dense) = Inr out \<Longrightarrow> 0 \<le> n"
  by (auto simp: vector_search_def semantic_search_def and_then_def limit_def
      split: if_splits sum.splits)

text \<open>
  C7. When both rankings of the statement come back empty, the statement returns the
  empty list and raises nothing, in either dialect; so does the final select on two
  empty rank lists.
\<close>

theorem empty_rankings_empty_result:
  "(0 \<le> n \<longrightarrow> fusion_select [] [] n k wk ws = Inr []) \<and>
   ((if pg then vector_search n dense_table else semantic_search n dense_table) = Inr [] \<and>
    (if pg then keyword_search_bm25 n sparse_table else keyword_search n sparse_table) = Inr [] \<longrightarrow>
    rrf_query pg dense_table sparse_table n k wk ws = Inr [])"
proof -
  have empty: "fusion_select [] [] n k wk ws = Inr []" if "0 \<le> n"
    using that
    by (simp add: fusion_select_def candidate_pool_def full_outer_join_def and_then_Inr
        order_by_score_desc_def limit_def)
  have "rrf_query pg dense_table sparse_table n k wk ws = Inr []"
    if v: "(if pg then vector_search n dense_table else semantic_search n dense_table) = Inr []"
      and kw: "(if pg then keyword_search_bm25 n sparse_table else keyword_search n sparse_table) = Inr []"
  proof -
    from v have "0 \<le> n" by (rule ranking_Inr)
    then have "fusion_select [] [] n k wk ws = Inr []" by (rule empty)
    with v kw show ?thesis by (simp add: rrf_query_def and_then_Inr)
  qed
  with empty show ?thesis by blast
qed

theorem empty_rankings_empty_result_witness:
  "semantic_search 5 [] = Inr [] \<and>
   keyword_search 5 [\<lparr>sparse_id = ''d4'', matches = False, ts_rank = 0, bm25_distance = 0\<rparr>] = Inr [] \<and>
   rrf_query False [] [\<lparr>sparse_id = ''d4'', matches = False, ts_rank = 0, bm25_distance = 0\<rparr>] 5 60 1 1 = Inr [] \<and>
   fusion_select [] [] 5 60 1 1 = Inr []"
proof -
  have a: "semantic_search 5 [] = Inr []"
    by (simp add: semantic_search_def rank_over_def limit_def and_then_Inr)
  have b: "keyword_search 5 [\<lparr>sparse_id = ''d4'', matches = False, ts_rank = 0, bm25_distance = 0\<rparr>] = Inr []"
    by (simp add: keyword_search_def rank_over_def limit_def and_then_Inr)
  from a b empty_rankings_empty_result [of 5 60 1 1 False "[]"
      "[\<lparr>sparse_id = ''d4'', matches = False, ts_rank = 0, bm25_distance = 0\<rparr>]"]
  show ?thesis by simp
qed


lemma ids_set_rank: "map fst (set_rank i r ranks) = map fst ranks"
  by (induction ranks) (auto simp: set_rank_def)

lemma map_of_set_rank:
  "(i, r) \<in> set ranks \<Longrightarrow> map_of (set_rank i r' ranks) i = Some r'"
  by (induction ranks) (auto simp: set_rank_def)

lemma reciprocal_antimono:
  assumes "0 < k" and "r \<le> r'"
  shows "1 / (k + of_nat r') \<le> 1 / (k + (of_nat r :: rat))"
proof -
  have "(0::rat) \<le> of_nat r" by simp
  with assms(1) have pos: "0 < k + of_nat r" by linarith
  from assms(2) have "(of_nat r :: rat) \<le> of_nat r'" by simp
  then have "k + of_nat r \<le> k + of_nat r'" by simp
  with pos show ?thesis by (simp add: frac_le)
qed

text \<open>
  C8. For \<open>k > 0\<close> and non-negative weights: moving an id to a later rank in the
  sparse list, or in the dense list, with everything else unchanged, does not increase
  the score of its candidate row.
\<close>

theorem later_rank_never_raises_score:
  assumes "0 < k" and "0 \<le> wk" and "0 \<le> ws"
    and "distinct (map fst dense_ranks)" and "distinct (map fst sparse_ranks)"
    and "r \<le> r'"
  shows "((i, r) \<in> set sparse_ranks \<longrightarrow>
      (\<exists>pool pool' s s'.
         candidate_pool dense_ranks sparse_ranks k wk ws = Inr pool \<and>
         candidate_pool dense_ranks (set_rank i r' sparse_ranks) k wk ws = Inr pool' \<and>
         map_of pool i = Some s \<and> map_of pool' i = Some s' \<and> s' \<le> s)) \<and>
    ((i, r) \<in> set dense_ranks \<longrightarrow>
      (\<exists>pool pool' s s'.
         candidate_pool dense_ranks sparse_ranks k wk ws = Inr pool \<and>
         candidate_pool (set_rank i r' dense_ranks) sparse_ranks k wk ws = Inr pool' \<and>
         map_of pool i = Some s \<and> map_of pool' i = Some s' \<and> s' \<le> s))"
proof (intro conjI impI)
  let ?pool = "map (scored k wk ws) (full_outer_join dense_ranks sparse_ranks)"
  have pool: "candidate_pool dense_ranks sparse_ranks k wk ws = Inr ?pool"
    using assms(1) by (rule candidate_pool_positive)
  have le: "1 / (k + of_nat r') \<le> 1 / (k + (of_nat r :: rat))"
    using assms(1,6) by (rule reciprocal_antimono)
  {
    assume mem: "(i, r) \<in> set sparse_ranks"
    let ?sparse' = "set_rank i r' sparse_ranks"
    let ?pool' = "map (scored k wk ws) (full_outer_join dense_ranks ?sparse')"
    have pool': "candidate_pool dense_ranks ?sparse' k wk ws = Inr ?pool'"
      using assms(1) by (rule candidate_pool_positive)
    have d': "distinct (map fst ?sparse')" using assms(5) by (simp only: ids_set_rank)
    from mem have "i \<in> fst ` set sparse_ranks" by force
    then have i: "i \<in> fst ` set dense_ranks \<union> fst ` set sparse_ranks" by simp
    have "fst ` set ?sparse' = fst ` set sparse_ranks"
      using ids_set_rank [of i r' sparse_ranks] by (metis set_map)
    with i have i': "i \<in> fst ` set dense_ranks \<union> fst ` set ?sparse'" by simp
    have s: "map_of ?pool i = Some (spec_fused_score k wk ws sparse_ranks dense_ranks i)"
      using assms(4,5) i by (rule pool_lookup)
    have s': "map_of ?pool' i = Some (spec_fused_score k wk ws ?sparse' dense_ranks i)"
      using assms(4) d' i' by (rule pool_lookup)
    from mem assms(5) have old: "map_of sparse_ranks i = Some r" by simp
    from mem have new: "map_of ?sparse' i = Some r'" by (rule map_of_set_rank)
    from le assms(2) have "wk * (1 / (k + of_nat r')) \<le> wk * (1 / (k + of_nat r))"
      by (rule mult_left_mono)
    then have "spec_fused_score k wk ws ?sparse' dense_ranks i \<le>
        spec_fused_score k wk ws sparse_ranks dense_ranks i"
      by (simp add: spec_fused_score_def old new)
    with pool pool' s s' show "\<exists>pool pool' s s'.
         candidate_pool dense_ranks sparse_ranks k wk ws = Inr pool \<and>
         candidate_pool dense_ranks (set_rank i r' sparse_ranks) k wk ws = Inr pool' \<and>
         map_of pool i = Some s \<and> map_of pool' i = Some s' \<and> s' \<le> s"
      by blast
  }
  {
    assume mem: "(i, r) \<in> set dense_ranks"
    let ?dense' = "set_rank i r' dense_ranks"
    let ?pool' = "map (scored k wk ws) (full_outer_join ?dense' sparse_ranks)"
    have pool': "candidate_pool ?dense' sparse_ranks k wk ws = Inr ?pool'"
      using assms(1) by (rule candidate_pool_positive)
    have d': "distinct (map fst ?dense')" using assms(4) by (simp only: ids_set_rank)
    from mem have "i \<in> fst ` set dense_ranks" by force
    then have i: "i \<in> fst ` set dense_ranks \<union> fst ` set sparse_ranks" by simp
    have "fst ` set ?dense' = fst ` set dense_ranks"
      using ids_set_rank [of i r' dense_ranks] by (metis set_map)
    with i have i': "i \<in> fst ` set ?dense' \<union> fst ` set sparse_ranks" by simp
    have s: "map_of ?pool i = Some (spec_fused_score k wk ws sparse_ranks dense_ranks i)"
      using assms(4,5) i by (rule pool_lookup)
    have s': "map_of ?pool' i = Some (spec_fused_score k wk ws sparse_ranks ?dense' i)"
      using d' assms(5) i' by (rule pool_lookup)
    from mem assms(4) have old: "map_of dense_ranks i = Some r" by simp
    from mem have new: "map_of ?dense' i = Some r'" by (rule map_of_set_rank)
    from le assms(3) have "ws * (1 / (k + of_nat r')) \<le> ws * (1 / (k + of_nat r))"
      by (rule mult_left_mono)
    then have "spec_fused_score k wk ws sparse_ranks ?dense' i \<le>
        spec_fused_score k wk ws sparse_ranks dense_ranks i"
      by (simp add: spec_fused_score_def old new)
    with pool pool' s s' show "\<exists>pool pool' s s'.
         candidate_pool dense_ranks sparse_ranks k wk ws = Inr pool \<and>
         candidate_pool (set_rank i r' dense_ranks) sparse_ranks k wk ws = Inr pool' \<and>
         map_of pool i = Some s \<and> map_of pool' i = Some s' \<and> s' \<le> s"
      by blast
  }
qed

theorem later_rank_never_raises_score_witness:
  "(\<exists>pool pool' s s'.
      candidate_pool [(''A'', 1)] [(''A'', 1), (''B'', 2)] 60 1 1 = Inr pool \<and>
      candidate_pool [(''A'', 1)] (set_rank ''A'' 5 [(''A'', 1), (''B'', 2)]) 60 1 1 = Inr pool' \<and>
      map_of pool ''A'' = Some s \<and> map_of pool' ''A'' = Some s' \<and> s' \<le> s) \<and>
   (\<exists>pool pool' s s'.
      candidate_pool [(''A'', 1)] [(''A'', 1), (''B'', 2)] 60 1 1 = Inr pool \<and>
      candidate_pool (set_rank ''A'' 5 [(''A'', 1)]) [(''A'', 1), (''B'', 2)] 60 1 1 = Inr pool' \<and>
      map_of pool ''A'' = Some s \<and> map_of pool' ''A'' = Some s' \<and> s' \<le> s)"
proof -
  have hyps: "(0::rat) < 60" "(0::rat) \<le> 1" "(0::rat) \<le> 1"
    "distinct (map fst [(''A'', 1::nat)])" "distinct (map fst [(''A'', 1::nat), (''B'', 2)])"
    "(1::nat) \<le> 5"
    by simp_all
  have mem: "(''A'', 1::nat) \<in> set [(''A'', 1), (''B'', 2)]" "(''A'', 1::nat) \<in> set [(''A'', 1)]"
    by simp_all
  note inst = later_rank_never_raises_score [OF hyps, of "''A''"]
  from inst [THEN conjunct1, THEN mp, OF mem(1)] inst [THEN conjunct2, THEN mp, OF mem(2)]
  show ?thesis by (rule conjI)
qed

text \<open>
  C3 at rows with equal sort keys. \<^verbatim>\<open>d1\<close> and \<^verbatim>\<open>d2\<close> are at the same distance, and
  \<^verbatim>\<open>d1\<close> and \<^verbatim>\<open>d3\<close> have the same \<^verbatim>\<open>ts_rank\<close>. Without
  \<^verbatim>\<open>use_pg_textsearch\<close> the rankings use \<^verbatim>\<open>RANK()\<close>: the tied rows share a
  rank and the next rank is skipped (1, 1, 3, 4 on the dense table and 1, 2, 2 on the
  matching rows of the sparse table). With \<^verbatim>\<open>use_pg_textsearch\<close> the rankings of
  the same function use \<^verbatim>\<open>ROW_NUMBER()\<close> and give 1, 2, 3, 4. All rows fit under the
  limit, so the outcome does not depend on which rows a \<^verbatim>\<open>LIMIT\<close> without
  \<^verbatim>\<open>ORDER BY\<close> keeps.
\<close>

theorem tied_rows_share_a_rank:
  "semantic_search 5 demo_dense = Inr [(''d1'', 1), (''d2'', 1), (''d3'', 3), (''d4'', 4)] \<and>
   keyword_search 5 demo_sparse = Inr [(''d5'', 1), (''d1'', 2), (''d3'', 2)] \<and>
   vector_search 5 demo_dense = Inr [(''d1'', 1), (''d2'', 2), (''d3'', 3), (''d4'', 4)] \<and>
   keyword_search_bm25 5 demo_sparse = Inr [(''d5'', 1), (''d1'', 2), (''d3'', 3), (''d4'', 4)]"
  by code_simp

text \<open>
  With \<^verbatim>\<open>use_pg_textsearch\<close> the two rankings do what C3 says: the first \<open>n\<close>
  rows in the order of the source, numbered 1, 2, ... without gaps.
\<close>

lemma take_from_one: "take m [1..<Suc l] = [1..<Suc (min m l)]"
proof (cases "m \<le> l")
  case True
  then have "take m [1..<Suc l] = [1..<1 + m]" by (intro take_upt) simp
  with True show ?thesis by (simp add: min_def)
next
  case False
  then show ?thesis by (simp add: min_def)
qed

lemma row_number_ranking:
  fixes key :: "'r \<Rightarrow> rat" and ident :: "'r \<Rightarrow> string"
  defines "out \<equiv> \<lambda>m t. map (\<lambda>(r, rank). (ident r, rank))
      (take m (sort_key (\<lambda>(r, rank). key r) (row_number_over key t)))"
  shows "map snd (out m t) = [1..<Suc (length (out m t))] \<and>
     length (out m t) = min m (length t) \<and>
     map fst (out m t) = take m (map ident (sort_key key t))"
proof -
  let ?S = "sort_key key t"
  let ?Z = "zip ?S [1..<Suc (length ?S)]"
  have Z: "row_number_over key t = ?Z" by (simp add: row_number_over_def Let_def)
  have eq_len: "length ?S = length [1..<Suc (length ?S)]" by (simp only: length_upt diff_Suc_1)
  have fstZ: "map fst ?Z = ?S" using eq_len by (rule map_fst_zip)
  have sndZ: "map snd ?Z = [1..<Suc (length ?S)]" using eq_len by (rule map_snd_zip)
  have "map (\<lambda>(r, rank). key r) ?Z = map key (map fst ?Z)"
    by (simp add: case_prod_beta comp_def)
  then have "sorted (map (\<lambda>(r, rank). key r) ?Z)" by (simp only: fstZ sorted_sort_key)
  then have id: "sort_key (\<lambda>(r, rank). key r) ?Z = ?Z" by (rule sort_key_id_if_sorted)
  have o: "out m t = map (\<lambda>(r, rank). (ident r, rank)) (take m ?Z)"
    by (simp only: out_def Z id)
  have lenZ: "length ?Z = length t"
    by (simp only: length_zip length_upt diff_Suc_1 min.idem length_sort)
  have "length (out m t) = min (length t) m"
    by (simp only: o length_map length_take lenZ)
  then have len: "length (out m t) = min m (length t)" by (simp only: min.commute)
  have "map snd (out m t) = take m (map snd ?Z)"
    by (simp add: o take_map case_prod_beta comp_def)
  also have "\<dots> = take m [1..<Suc (length ?S)]" by (simp only: sndZ)
  also have "\<dots> = [1..<Suc (min m (length ?S))]" by (rule take_from_one)
  finally have snd: "map snd (out m t) = [1..<Suc (min m (length t))]"
    by (simp only: length_sort)
  have "map fst (out m t) = take m (map ident (map fst ?Z))"
    by (simp add: o take_map case_prod_beta comp_def)
  then have "map fst (out m t) = take m (map ident ?S)" by (simp only: fstZ)
  with len snd show ?thesis by (simp only: simp_thms)
qed

lemma pg_textsearch_rankings_consecutive:
  "vector_search n dense_table = Inr v \<Longrightarrow>
     map snd v = [1..<Suc (length v)] \<and> length v = min (nat n) (length dense_table) \<and>
     map fst v = take (nat n) (map dense_id (sort_key distance dense_table))"
  "keyword_search_bm25 n sparse_table = Inr kw \<Longrightarrow>
     map snd kw = [1..<Suc (length kw)] \<and> length kw = min (nat n) (length sparse_table) \<and>
     map fst kw = take (nat n) (map sparse_id (sort_key bm25_distance sparse_table))"
proof -
  assume "vector_search n dense_table = Inr v"
  then have "v = map (\<lambda>(r, rank). (dense_id r, rank))
      (take (nat n) (sort_key (\<lambda>(r, rank). distance r) (row_number_over distance dense_table)))"
    by (auto simp: vector_search_def limit_def and_then_def split: if_splits)
  then show "map snd v = [1..<Suc (length v)] \<and> length v = min (nat n) (length dense_table) \<and>
     map fst v = take (nat n) (map dense_id (sort_key distance dense_table))"
    by (simp only: row_number_ranking)
next
  assume "keyword_search_bm25 n sparse_table = Inr kw"
  then have "kw = map (\<lambda>(r, rank). (sparse_id r, rank))
      (take (nat n) (sort_key (\<lambda>(r, rank). bm25_distance r) (row_number_over bm25_distance sparse_table)))"
    by (auto simp: keyword_search_bm25_def limit_def and_then_def split: if_splits)
  then show "map snd kw = [1..<Suc (length kw)] \<and> length kw = min (nat n) (length sparse_table) \<and>
     map fst kw = take (nat n) (map sparse_id (sort_key bm25_distance sparse_table))"
    by (simp only: row_number_ranking)
qed

end
